theory Spec2Isabelle
  imports Main
begin

section \<open>Faults\<close>

text \<open>
  The Go code has no error values of its own: what goes wrong either is logged or is a
  panic. A panic is not recovered anywhere in the package, so it ends the process.
  \<open>Die\<close> is the explicit \<^verbatim>\<open>die(...)\<close> of http.go (a \<^verbatim>\<open>panic\<close> with the message);
  the others are the run-time panics of the Go operations the code performs unguarded.
\<close>

datatype fault =
    Die string
  | NilPointerDereference
  | IndexOutOfRange
  | NilMapAssignment

section \<open>rancher.go: the metadata cache and the resolver\<close>

text \<open>
  \<open>'v\<close> stands for the values of Go's \<^verbatim>\<open>interface{}\<close> that come out of a JSON decoder
  (label values, decoded payload fields); the code never inspects them.
\<close>

record 'v ApiContainer =
  api_ExternalId :: string
  api_Name :: string
  api_Ip :: string
  api_Id :: string
  api_HostId :: string
  api_Labels :: "string \<rightharpoonup> 'v"

record 'v RancherContainer =
  rc_Name :: string
  rc_IP :: string
  rc_ID :: string
  rc_HostID :: string
  rc_DockerID :: string
  rc_Labels :: "string \<rightharpoonup> 'v"

record 'v RancherInfo =
  ri_Container :: "'v RancherContainer"

record DockerInfo =
  di_Name :: string
  di_ID :: string
  di_Image :: string
  di_Hostname :: string

subsection \<open>The log record and the effects\<close>

text \<open>
  A log record is a \<^verbatim>\<open>map[string]interface{}\<close>. Stream puts four kinds of values
  into it: what the JSON decoder returned, strings (the raw payload, the static tag
  fields), the \<^verbatim>\<open>docker\<close> block and the \<^verbatim>\<open>rancher\<close> block.
\<close>

datatype 'v field =
    Decoded 'v
  | Str string
  | Docker DockerInfo
  | Rancher "'v RancherInfo"

type_synonym 'v LogRecord = "string \<rightharpoonup> 'v field"

text \<open>
  What the code does besides changing its state: a call of the orchestrator API
  (\<^verbatim>\<open>rancher.Container.List\<close> with the filter \<^verbatim>\<open>externalId\<close>), a line of the log
  (\<^verbatim>\<open>log.Print\<close>), a line of \<^verbatim>\<open>debug\<close>, and the goroutine that flushHttp starts with
  the payload, the detached buffer and the reason.
\<close>

datatype 'v effect =
    ApiList string
  | LogPrint string
  | Debug string
  | Go string "'v LogRecord list" string

text \<open>
  The orchestrator API is outside the repository: \<open>api cID\<close> is the answer of
  \<^verbatim>\<open>rancher.Container.List\<close> for the filter \<open>cID\<close>, the records of the collection and
  whether \<^verbatim>\<open>err\<close> was set. (The client library allocates the collection before the
  request, so \<^verbatim>\<open>container.Data\<close> is read from a collection that exists also when
  \<^verbatim>\<open>err\<close> is set.)
\<close>

type_synonym 'v rancher_api = "string \<Rightarrow> 'v ApiContainer list \<times> bool"

text \<open>
  The package variable \<^verbatim>\<open>cCache\<close>. A value is a pointer in Go; \<^verbatim>\<open>Cache\<close> is the only
  writer and stores the pointer it has just built, so no key holds nil.
\<close>

type_synonym 'v cache = "string \<rightharpoonup> 'v RancherInfo"

definition GetRancherId ::
  "'v rancher_api \<Rightarrow> string \<Rightarrow> 'v ApiContainer option \<times> 'v effect list" where
  "GetRancherId api cID =
     (case api cID of
        (data, err) \<Rightarrow>
          (find (\<lambda>d. api_ExternalId d = cID) data,
           ApiList cID # (if err then [LogPrint ''api error''] else [])))"

definition Cache :: "'v cache \<Rightarrow> 'v RancherInfo \<Rightarrow> 'v cache" where
  "Cache cCache con = cCache(rc_DockerID (ri_Container con) \<mapsto> con)"

definition ExistsInCache :: "'v cache \<Rightarrow> string \<Rightarrow> bool" where
  "ExistsInCache cCache containerID = (cCache containerID \<noteq> None)"

definition GetFromCache :: "'v cache \<Rightarrow> string \<Rightarrow> 'v RancherInfo option" where
  "GetFromCache cCache cID = cCache cID"

text \<open>\<^verbatim>\<open>DeleteFromCache\<close> deletes and then returns whether the key is in the cache.\<close>

definition DeleteFromCache :: "'v cache \<Rightarrow> string \<Rightarrow> bool \<times> 'v cache" where
  "DeleteFromCache cCache cId =
     (let cCache' = cCache(cId := None) in (ExistsInCache cCache' cId, cCache'))"

definition GetRancherInfo ::
  "'v rancher_api \<Rightarrow> 'v cache \<Rightarrow> string
     \<Rightarrow> 'v RancherInfo option \<times> 'v cache \<times> 'v effect list" where
  "GetRancherInfo api cCache cID =
     (if \<not> ExistsInCache cCache cID then
        (case GetRancherId api cID of
           (None, eff) \<Rightarrow>
             (case DeleteFromCache cCache cID of
                (del, cCache') \<Rightarrow>
                  if del then
                    (None, cCache',
                     eff @ [LogPrint ''Removed container ID from cache'',
                            LogPrint ''Could not find rancher metadata in the API''])
                  else (None, cCache', eff))
         | (Some rcontainer, eff) \<Rightarrow>
             (let container =
                    \<lparr> rc_Name = api_Name rcontainer, rc_IP = api_Ip rcontainer,
                      rc_ID = api_Id rcontainer, rc_HostID = api_HostId rcontainer,
                      rc_DockerID = cID, rc_Labels = api_Labels rcontainer \<rparr>;
                  rancherInfo = \<lparr> ri_Container = container \<rparr>
              in (Some rancherInfo, Cache cCache rancherInfo, eff)))
      else (GetFromCache cCache cID, cCache, []))"

section \<open>http.go: the adapter\<close>

subsection \<open>Options\<close>

text \<open>
  \<^verbatim>\<open>strconv.Atoi\<close>, \<^verbatim>\<open>time.ParseDuration\<close> and \<^verbatim>\<open>url.Parse\<close> belong to Go's library:
  they are parameters, \<open>None\<close> standing for \<^verbatim>\<open>err != nil\<close>. A duration is its number of
  nanoseconds, as \<^verbatim>\<open>time.Duration\<close> is.
\<close>

definition getStringParameter :: "(string \<rightharpoonup> string) \<Rightarrow> string \<Rightarrow> string \<Rightarrow> string" where
  "getStringParameter options parameterName dfault =
     (case options parameterName of Some v \<Rightarrow> v | None \<Rightarrow> dfault)"

definition getIntParameter ::
  "(string \<Rightarrow> int option) \<Rightarrow> (string \<rightharpoonup> string) \<Rightarrow> string \<Rightarrow> int \<Rightarrow> int" where
  "getIntParameter atoi options parameterName dfault =
     (case options parameterName of
        Some v \<Rightarrow> (case atoi v of None \<Rightarrow> dfault | Some valueInt \<Rightarrow> valueInt)
      | None \<Rightarrow> dfault)"

definition getDurationParameter ::
  "(string \<Rightarrow> int option) \<Rightarrow> (string \<rightharpoonup> string) \<Rightarrow> string \<Rightarrow> int \<Rightarrow> int" where
  "getDurationParameter parseDuration options parameterName dfault =
     (case options parameterName of
        Some v \<Rightarrow> (case parseDuration v of None \<Rightarrow> dfault | Some valueDuration \<Rightarrow> valueDuration)
      | None \<Rightarrow> dfault)"

subsection \<open>The adapter's state\<close>

record Route =
  Adapter :: string
  Address :: string
  Options :: "string \<rightharpoonup> string"

record Client =
  Proxy :: "string option"
  InsecureSkipVerify :: bool

datatype Timer = Stopped | Armed int

text \<open>
  \<^verbatim>\<open>HTTPAdapter\<close>. The slice \<^verbatim>\<open>buffer\<close> is its elements and its capacity
  (\<^verbatim>\<open>cap(a.buffer)\<close>), which Stream tests. An element is a pointer to the map that one
  iteration of Stream declares, so no two elements share a map. The field
  \<^verbatim>\<open>capacity\<close> is a natural number: the only constructor stores a value from 1 to 10000.
\<close>

record 'v HTTPAdapter =
  url :: string
  client :: Client
  buffer :: "'v LogRecord list"
  buffer_cap :: nat
  timer :: Timer
  capacity :: nat
  timeout :: int
  totalMessageCount :: nat
  useGzip :: bool
  crash :: bool
  logstashFields :: "string \<rightharpoonup> (string \<rightharpoonup> string)"

definition millisecond :: int where
  "millisecond = 1000000"

definition second :: int where
  "second = 1000000000"

text \<open>
  \<^verbatim>\<open>NewHTTPAdapter\<close>. The timeout is compared as \<^verbatim>\<open>timeout.Seconds()\<close>, a float64, with
  \<^verbatim>\<open>.1\<close> and \<^verbatim>\<open>600\<close>. \<^verbatim>\<open>Seconds\<close> is \<^verbatim>\<open>float64(d / Second) + float64(d % Second) / 1e9\<close>;
  on whole nanoseconds the two comparisons are those of the integers with
  100 ms and 600 s (1e8 / 1e9 rounds to the float64 that \<^verbatim>\<open>.1\<close> denotes, and 1 ns is far
  above the spacing of the float64 near 0.1 and near 600), which is what the model
  compares. The lines of \<^verbatim>\<open>debug\<close> of the constructor are left out.
\<close>

definition NewHTTPAdapter ::
  "(string \<Rightarrow> int option) \<Rightarrow> (string \<Rightarrow> int option) \<Rightarrow> (string \<Rightarrow> bool) \<Rightarrow> Route
     \<Rightarrow> fault + 'v HTTPAdapter" where
  "NewHTTPAdapter atoi parseDuration urlParseFails route =
     (let defaultPath = '''';
          path = getStringParameter (Options route) ''http.path'' defaultPath;
          endpointUrl = Adapter route @ ''://'' @ Address route @ path;
          defaultProxyUrl = '''';
          proxyUrlString = getStringParameter (Options route) ''http.proxy'' defaultProxyUrl
      in
        if proxyUrlString \<noteq> '''' \<and> urlParseFails proxyUrlString then
          Inl (Die ''http: cannot parse proxy url:'')
        else
          (let client0 =
                 (if proxyUrlString \<noteq> '''' then
                    \<lparr> Proxy = Some proxyUrlString, InsecureSkipVerify = True \<rparr>
                  else \<lparr> Proxy = None, InsecureSkipVerify = False \<rparr>);
               defaultCapacity = 100;
               capacity0 = getIntParameter atoi (Options route) ''http.buffer.capacity''
                             defaultCapacity;
               capacity1 = (if capacity0 < 1 \<or> capacity0 > 10000 then defaultCapacity
                            else capacity0);
               defaultTimeout = 1000 * millisecond;
               timeout0 = getDurationParameter parseDuration (Options route)
                            ''http.buffer.timeout'' defaultTimeout;
               timeout1 = (if timeout0 < 100 * millisecond \<or> timeout0 > 600 * second
                           then defaultTimeout else timeout0);
               useGZipString = getStringParameter (Options route) ''http.gzip'' ''false'';
               crashString = getStringParameter (Options route) ''http.crash'' ''true''
           in Inr \<lparr> url = endpointUrl,
                    client = client0,
                    buffer = [],
                    buffer_cap = nat capacity1,
                    timer = Armed timeout1,
                    capacity = nat capacity1,
                    timeout = timeout1,
                    totalMessageCount = 0,
                    useGzip = (useGZipString = ''true''),
                    crash = (crashString \<noteq> ''false''),
                    logstashFields = Map.empty \<rparr>))"

subsection \<open>The flush\<close>

text \<open>
  \<^verbatim>\<open>flushHttp\<close>. \<^verbatim>\<open>json.Marshal\<close> is a parameter, \<open>None\<close> standing for \<^verbatim>\<open>err != nil\<close>.
  The timer is stopped first and the deferred \<^verbatim>\<open>a.timer.Reset(a.timeout)\<close> runs at each
  of the three returns. The goroutine is not run here: it is the effect \<open>Go\<close>.
\<close>

definition flushHttp ::
  "('v LogRecord list \<Rightarrow> string option) \<Rightarrow> 'v HTTPAdapter \<Rightarrow> string
     \<Rightarrow> 'v HTTPAdapter \<times> 'v effect list" where
  "flushHttp marshal a reason =
     (let a1 = a\<lparr> timer := Stopped \<rparr> in
        if length (buffer a1) < 1 then
          (a1\<lparr> timer := Armed (timeout a1) \<rparr>, [])
        else
          (let buffer0 = buffer a1;
               a2 = a1\<lparr> buffer := [], buffer_cap := capacity a1 \<rparr>
           in case marshal buffer0 of
                None \<Rightarrow>
                  (a2\<lparr> timer := Armed (timeout a2) \<rparr>,
                   [Debug ''flushHttp - Error encoding JSON: ''])
              | Some payload \<Rightarrow>
                  (a2\<lparr> timer := Armed (timeout a2) \<rparr>, [Go payload buffer0 reason])))"

subsection \<open>The request and the goroutine of a flush\<close>

record Request =
  req_method :: string
  req_url :: string
  req_body :: string
  req_ContentEncoding :: "string option"

record Response =
  StatusCode :: int

text \<open>
  The library under the goroutine: whether the gzip writer's \<^verbatim>\<open>Write\<close> and \<^verbatim>\<open>Close\<close>
  fail on a payload, the bytes it produces, whether \<^verbatim>\<open>http.NewRequest\<close> fails on a URL,
  and \<^verbatim>\<open>client.Do\<close>, which returns a response or nil, and whether \<^verbatim>\<open>err\<close> is set.
\<close>

record Transport =
  gzipWriteFails :: "string \<Rightarrow> bool"
  gzipCloseFails :: "string \<Rightarrow> bool"
  gzipBytes :: "string \<Rightarrow> string"
  newRequestFails :: "string \<Rightarrow> bool"
  clientDo :: "Request \<Rightarrow> Response option \<times> bool"

definition createRequest :: "Transport \<Rightarrow> string \<Rightarrow> bool \<Rightarrow> string \<Rightarrow> fault + Request" where
  "createRequest tr url0 useGzip0 payload =
     (if useGzip0 then
        (if gzipWriteFails tr payload then Inl (Die ''http: unable to write to GZIP writer:'')
         else if gzipCloseFails tr payload then Inl (Die ''http: unable to close GZIP writer:'')
         else if newRequestFails tr url0 then Inl (Die ''http: error on http.NewRequest:'')
         else Inr \<lparr> req_method = ''POST'', req_url = url0, req_body = gzipBytes tr payload,
                    req_ContentEncoding = Some ''gzip'' \<rparr>)
      else
        (if newRequestFails tr url0 then Inl (Die ''http: error on http.NewRequest:'')
         else Inr \<lparr> req_method = ''POST'', req_url = url0, req_body = payload,
                    req_ContentEncoding = None \<rparr>))"

text \<open>
  The body of the goroutine, in its three steps. After \<^verbatim>\<open>client.Do\<close> the code reads
  \<^verbatim>\<open>response.StatusCode\<close> whatever \<^verbatim>\<open>err\<close> was: on a nil response that is a nil pointer
  dereference. The result is the new \<^verbatim>\<open>totalMessageCount\<close> and the lines of \<^verbatim>\<open>debug\<close>.
\<close>

definition onDoError :: "bool \<Rightarrow> bool \<Rightarrow> fault + 'v effect list" where
  "onDoError crash0 err =
     (if err then
        (if crash0 then Inl (Die ''http - error on client.Do:'')
         else Inr [Debug ''http - error on client.Do:'', Debug ''http: error on client.Do:''])
      else Inr [])"

definition onStatus :: "bool \<Rightarrow> Response option \<Rightarrow> fault + 'v effect list" where
  "onStatus crash0 response =
     (case response of
        None \<Rightarrow> Inl NilPointerDereference
      | Some r \<Rightarrow>
          if StatusCode r \<noteq> 200 then
            (if crash0 then Inl (Die ''http: response not 200 but'')
             else Inr [Debug ''http: response not 200 but''])
          else Inr [])"

definition flushHttp_go ::
  "Transport \<Rightarrow> 'v HTTPAdapter \<Rightarrow> string \<Rightarrow> 'v LogRecord list \<Rightarrow> fault + nat \<times> 'v effect list" where
  "flushHttp_go tr a payload buffer0 =
     (case createRequest tr (url a) (useGzip a) payload of
        Inl f \<Rightarrow> Inl f
      | Inr request \<Rightarrow>
          (case clientDo tr request of
             (response, err) \<Rightarrow>
               (case onDoError (crash a) err of
                  Inl f \<Rightarrow> Inl f
                | Inr eff1 \<Rightarrow>
                    (case onStatus (crash a) response of
                       Inl f \<Rightarrow> Inl f
                     | Inr eff2 \<Rightarrow>
                         Inr (totalMessageCount a + length buffer0,
                              eff1 @ eff2 @ [Debug ''http: flushed:''])))))"

subsection \<open>The static tag fields\<close>

text \<open>
  \<^verbatim>\<open>strings.Split\<close> with a separator of one character: the pieces between the
  separators, one more than there are separators, so never an empty list.
\<close>

fun Split :: "string \<Rightarrow> char \<Rightarrow> string list" where
  "Split [] sep = [[]]"
| "Split (x # xs) sep =
     (if x = sep then [] # Split xs sep
      else (case Split xs sep of [] \<Rightarrow> [[x]] | w # ws \<Rightarrow> (x # w) # ws))"

definition HasPrefix :: "string \<Rightarrow> string \<Rightarrow> bool" where
  "HasPrefix s pre = (take (length pre) s = pre)"

definition TrimPrefix :: "string \<Rightarrow> string \<Rightarrow> string" where
  "TrimPrefix s pre = (if HasPrefix s pre then drop (length pre) s else s)"

text \<open>
  The loop over \<^verbatim>\<open>c.Config.Env\<close>: the last entry with the prefix wins.
\<close>

fun envFieldsStr :: "string list \<Rightarrow> string \<Rightarrow> string" where
  "envFieldsStr [] fieldsStr = fieldsStr"
| "envFieldsStr (e # es) fieldsStr =
     (if HasPrefix e ''LOGSTASH_FIELDS='' then envFieldsStr es (TrimPrefix e ''LOGSTASH_FIELDS='')
      else envFieldsStr es fieldsStr)"

text \<open>
  The loop over the entries: \<^verbatim>\<open>sp := strings.Split(f, "="); k, v := sp[0], sp[1]\<close>.
  \<^verbatim>\<open>sp[1]\<close> is read unguarded: with one piece only it is an index out of range.
\<close>

fun parseFields :: "string list \<Rightarrow> (string \<rightharpoonup> string) \<Rightarrow> fault + (string \<rightharpoonup> string)" where
  "parseFields [] fields0 = Inr fields0"
| "parseFields (f # fs) fields0 =
     (case Split f (CHR ''='') of
        k # v # rest \<Rightarrow> parseFields fs (fields0(k \<mapsto> v))
      | _ \<Rightarrow> Inl IndexOutOfRange)"

record Config =
  Image :: string
  Hostname :: string
  Env :: "string list"

record Container =
  ID :: string
  Name :: string
  Config :: Config

text \<open>
  \<^verbatim>\<open>GetLogstashFields\<close>; \<open>getenv\<close> is \<^verbatim>\<open>os.Getenv("LOGSTASH_FIELDS")\<close>. The result is the
  fields and the adapter with its per-container table updated.
\<close>

definition GetLogstashFields ::
  "string \<Rightarrow> Container \<Rightarrow> 'v HTTPAdapter \<Rightarrow> fault + (string \<rightharpoonup> string) \<times> 'v HTTPAdapter" where
  "GetLogstashFields getenv c a =
     (case logstashFields a (ID c) of
        Some fields0 \<Rightarrow> Inr (fields0, a)
      | None \<Rightarrow>
          (let fieldsStr = envFieldsStr (Env (Config c)) getenv in
             case (if length fieldsStr > 0 then parseFields (Split fieldsStr (CHR '','')) Map.empty
                   else Inr Map.empty) of
               Inl f \<Rightarrow> Inl f
             | Inr fields0 \<Rightarrow>
                 Inr (fields0, a\<lparr> logstashFields := (logstashFields a)(ID c \<mapsto> fields0) \<rparr>)))"

section \<open>Stream: the loop of the adapter\<close>

record Message =
  msg_Container :: Container
  Data :: string

text \<open>
  What \<^verbatim>\<open>json.Unmarshal([]byte(message.Data), &data)\<close> can do to the nil map
  \<^verbatim>\<open>data\<close>: store the decoded object, leave the map nil without an error (the JSON
  literal \<^verbatim>\<open>null\<close>), or return an error (text that is not JSON, or a JSON value that is
  no object and so does not fit a map).
\<close>

datatype 'v Unmarshal =
    UnmarshalObject "string \<rightharpoonup> 'v"
  | UnmarshalNil
  | UnmarshalError

text \<open>
  What lies outside the repository, as one record: the process environment variable,
  the orchestrator API, the JSON library, and the capacity that Go's \<^verbatim>\<open>append\<close> gives a
  slice it has to grow (from the old capacity).
\<close>

record 'v World =
  getenv_LOGSTASH_FIELDS :: string
  rancherList :: "'v rancher_api"
  jsonUnmarshal :: "string \<Rightarrow> 'v Unmarshal"
  jsonMarshal :: "'v LogRecord list \<Rightarrow> string option"
  appendGrow :: "nat \<Rightarrow> nat"

text \<open>
  Lines 34 to 42 of Stream: \<open>None\<close> is the nil map.
\<close>

definition decodeData :: "'v Unmarshal \<Rightarrow> string \<Rightarrow> 'v LogRecord option" where
  "decodeData r data =
     (case r of
        UnmarshalError \<Rightarrow> Some [''message'' \<mapsto> Str data]
      | UnmarshalNil \<Rightarrow> None
      | UnmarshalObject m \<Rightarrow> Some (map_option Decoded \<circ> m))"

text \<open>
  \<^verbatim>\<open>a.buffer = append(a.buffer, &data)\<close>: below its capacity the slice keeps it.
\<close>

definition appendBuffer :: "(nat \<Rightarrow> nat) \<Rightarrow> 'v HTTPAdapter \<Rightarrow> 'v LogRecord \<Rightarrow> 'v HTTPAdapter" where
  "appendBuffer grow a data =
     a\<lparr> buffer := buffer a @ [data],
        buffer_cap := (if length (buffer a) < buffer_cap a then buffer_cap a
                       else grow (buffer_cap a)) \<rparr>"

text \<open>
  The case \<^verbatim>\<open>message := <-logstream\<close>, in its two halves. The state is the adapter
  and the package's cache.

  Lines 19 to 49 build the record: \<open>Inr (None, _)\<close> is the \<^verbatim>\<open>continue\<close> of a message
  without orchestrator metadata. On a nil map the first assignment panics:
  \<^verbatim>\<open>data[k] = v\<close> if there are fields, \<^verbatim>\<open>data["docker"] = dockerInfo\<close> otherwise. The
  loop over the fields assigns to distinct keys, so its order does not matter.
\<close>

definition logRecord ::
  "'v Unmarshal \<Rightarrow> string \<Rightarrow> (string \<rightharpoonup> string) \<Rightarrow> DockerInfo \<Rightarrow> 'v RancherInfo
     \<Rightarrow> fault + 'v LogRecord" where
  "logRecord r data fields0 dockerInfo rancherInfo =
     (case decodeData r data of
        None \<Rightarrow> Inl NilMapAssignment
      | Some data0 \<Rightarrow>
          (let data1 = data0 ++ (map_option Str \<circ> fields0)
           in Inr (data1(''docker'' \<mapsto> Docker dockerInfo,
                         ''rancher'' \<mapsto> Rancher rancherInfo))))"

definition enrich ::
  "'v World \<Rightarrow> 'v HTTPAdapter \<Rightarrow> 'v cache \<Rightarrow> Message
     \<Rightarrow> fault + 'v LogRecord option \<times> 'v HTTPAdapter \<times> 'v cache \<times> 'v effect list" where
  "enrich w a cCache message =
     (let c = msg_Container message;
          dockerInfo = \<lparr> di_Name = Name c, di_ID = ID c, di_Image = Image (Config c),
                         di_Hostname = Hostname (Config c) \<rparr>
      in case GetLogstashFields (getenv_LOGSTASH_FIELDS w) c a of
           Inl f \<Rightarrow> Inl f
         | Inr (fields0, a1) \<Rightarrow>
             (case GetRancherInfo (rancherList w) cCache (ID c) of
                (None, cCache1, eff) \<Rightarrow> Inr (None, a1, cCache1, eff)
              | (Some rancherInfo, cCache1, eff) \<Rightarrow>
                  (case logRecord (jsonUnmarshal w (Data message)) (Data message) fields0
                          dockerInfo rancherInfo of
                     Inl f \<Rightarrow> Inl f
                   | Inr data \<Rightarrow> Inr (Some data, a1, cCache1, eff))))"

text \<open>
  Lines 51 to 59 append the record and flush a buffer that is at its capacity.
\<close>

definition enqueue ::
  "'v World \<Rightarrow> 'v HTTPAdapter \<Rightarrow> 'v LogRecord \<Rightarrow> 'v HTTPAdapter \<times> 'v effect list" where
  "enqueue w a data =
     (let a2 = appendBuffer (appendGrow w) a data
      in if length (buffer a2) \<ge> buffer_cap a2 then flushHttp (jsonMarshal w) a2 ''full''
         else (a2, []))"

definition Stream_message ::
  "'v World \<Rightarrow> 'v HTTPAdapter \<Rightarrow> 'v cache \<Rightarrow> Message
     \<Rightarrow> fault + 'v HTTPAdapter \<times> 'v cache \<times> 'v effect list" where
  "Stream_message w a cCache message =
     (case enrich w a cCache message of
        Inl f \<Rightarrow> Inl f
      | Inr (None, a1, cCache1, eff) \<Rightarrow> Inr (a1, cCache1, eff)
      | Inr (Some data, a1, cCache1, eff) \<Rightarrow>
          (case enqueue w a1 data of
             (a3, eff') \<Rightarrow> Inr (a3, cCache1, eff @ eff')))"

datatype Event = Logstream Message | TimerC

definition Stream_select ::
  "'v World \<Rightarrow> 'v HTTPAdapter \<Rightarrow> 'v cache \<Rightarrow> Event
     \<Rightarrow> fault + 'v HTTPAdapter \<times> 'v cache \<times> 'v effect list" where
  "Stream_select w a cCache ev =
     (case ev of
        Logstream message \<Rightarrow> Stream_message w a cCache message
      | TimerC \<Rightarrow>
          (case flushHttp (jsonMarshal w) a ''timeout'' of
             (a', eff) \<Rightarrow> Inr (a', cCache, eff)))"

text \<open>
  The loop \<^verbatim>\<open>for { select { ... } }\<close> never returns; \<open>Stream\<close> runs it on the events that
  the two channels deliver, in the order the \<^verbatim>\<open>select\<close> takes them, and stops at a panic.
\<close>

fun Stream ::
  "'v World \<Rightarrow> 'v HTTPAdapter \<Rightarrow> 'v cache \<Rightarrow> Event list
     \<Rightarrow> fault + 'v HTTPAdapter \<times> 'v cache \<times> 'v effect list" where
  "Stream w a cCache [] = Inr (a, cCache, [])"
| "Stream w a cCache (ev # evs) =
     (case Stream_select w a cCache ev of
        Inl f \<Rightarrow> Inl f
      | Inr (a', cCache', eff) \<Rightarrow>
          (case Stream w a' cCache' evs of
             Inl f \<Rightarrow> Inl f
           | Inr (a'', cCache'', eff') \<Rightarrow> Inr (a'', cCache'', eff @ eff')))"

section \<open>Sequences of resolutions and concrete inputs\<close>

text \<open>
  The cache after resolving a list of container IDs, one after the other.
\<close>

fun resolveAll :: "'v rancher_api \<Rightarrow> 'v cache \<Rightarrow> string list \<Rightarrow> 'v cache" where
  "resolveAll api cCache [] = cCache"
| "resolveAll api cCache (cID # cIDs) =
     resolveAll api (fst (snd (GetRancherInfo api cCache cID))) cIDs"

text \<open>
  Concrete inputs, for the evaluations below: a metadata record, an orchestrator that
  knows no container and one that knows the container \<^verbatim>\<open>abc\<close>, an adapter of capacity 3,
  a transport whose \<^verbatim>\<open>client.Do\<close> fails with a nil response (a refused connection), and a
  container whose static tag string has an entry without \<^verbatim>\<open>=\<close>.
\<close>

definition sample_info :: "nat RancherInfo" where
  "sample_info =
     \<lparr> ri_Container = \<lparr> rc_Name = ''web'', rc_IP = ''10.0.0.1'', rc_ID = ''1i1'',
                        rc_HostID = ''1h1'', rc_DockerID = ''abc'', rc_Labels = Map.empty \<rparr> \<rparr>"

definition api_none :: "nat rancher_api" where
  "api_none cID = ([], False)"

definition api_abc :: "nat rancher_api" where
  "api_abc cID =
     (if cID = ''abc'' then
        ([\<lparr> api_ExternalId = ''abc'', api_Name = ''web'', api_Ip = ''10.0.0.1'',
            api_Id = ''1i1'', api_HostId = ''1h1'', api_Labels = Map.empty \<rparr>], False)
      else ([], False))"

definition sample_adapter :: "nat HTTPAdapter" where
  "sample_adapter =
     \<lparr> url = ''http://collector:8080/logs'',
       client = \<lparr> Proxy = None, InsecureSkipVerify = False \<rparr>,
       buffer = [], buffer_cap = 3, timer = Armed 1000000000, capacity = 3,
       timeout = 1000000000, totalMessageCount = 0, useGzip = False, crash = True,
       logstashFields = Map.empty \<rparr>"

definition transport_refused :: Transport where
  "transport_refused =
     \<lparr> gzipWriteFails = (\<lambda>p. False), gzipCloseFails = (\<lambda>p. False), gzipBytes = (\<lambda>p. p),
       newRequestFails = (\<lambda>u. False), clientDo = (\<lambda>r. (None, True)) \<rparr>"

definition malformed_container :: Container where
  "malformed_container =
     \<lparr> ID = ''abc'', Name = ''/web'',
       Config = \<lparr> Image = ''nginx'', Hostname = ''web-1'',
                  Env = [''LOGSTASH_FIELDS=a=1,foo''] \<rparr> \<rparr>"

text \<open>
  The records of a list of messages that are all enriched, the adapter and the cache
  passed from one message to the next as Stream does; \<open>None\<close> if a message is dropped or
  faults. Only the table of static tag fields of the adapter matters to it.
\<close>

fun enrichAll ::
  "'v World \<Rightarrow> 'v HTTPAdapter \<Rightarrow> 'v cache \<Rightarrow> Message list \<Rightarrow> 'v LogRecord list option" where
  "enrichAll w a cCache [] = Some []"
| "enrichAll w a cCache (m # ms) =
     (case enrich w a cCache m of
        Inr (Some data, a1, cCache1, eff) \<Rightarrow> map_option ((#) data) (enrichAll w a1 cCache1 ms)
      | _ \<Rightarrow> None)"

text \<open>
  The effects of a flush: the goroutine, and the line of \<^verbatim>\<open>debug\<close> of a failed
  serialization (the only \<^verbatim>\<open>debug\<close> on the path of Stream).
\<close>

fun isFlush :: "'v effect \<Rightarrow> bool" where
  "isFlush (Go payload buffer0 reason) = True"
| "isFlush (Debug line) = True"
| "isFlush (ApiList cID) = False"
| "isFlush (LogPrint line) = False"

definition flushed :: "'v World \<Rightarrow> 'v LogRecord list \<Rightarrow> string \<Rightarrow> 'v effect list" where
  "flushed w batch reason =
     (case jsonMarshal w batch of
        None \<Rightarrow> [Debug ''flushHttp - Error encoding JSON: '']
      | Some payload \<Rightarrow> [Go payload batch reason])"

text \<open>
  More concrete inputs. \<open>sample_Unmarshal\<close> gives the answers of \<^verbatim>\<open>json.Unmarshal\<close> into a
  \<^verbatim>\<open>map[string]interface{}\<close> on the payloads used below: \<^verbatim>\<open>null\<close> leaves the map nil
  without an error, \<^verbatim>\<open>{"n":7}\<close> decodes to an object, \<^verbatim>\<open>7\<close> (valid JSON, but a number) and
  \<^verbatim>\<open>hello\<close> (not JSON) give an error; it is not meant for other payloads.
  \<open>sample_Marshal\<close> stands for a serialization that succeeds, \<open>marshal_fails\<close> for one
  that fails. \<open>sample_Atoi\<close> and \<open>sample_ParseDuration\<close> give \<^verbatim>\<open>strconv.Atoi\<close> and
  \<^verbatim>\<open>time.ParseDuration\<close> on the texts used below.
\<close>

definition sample_Unmarshal :: "string \<Rightarrow> nat Unmarshal" where
  \<open>sample_Unmarshal s =
     (if s = ''null'' then UnmarshalNil
      else if s = ''{"n":7}'' then UnmarshalObject [''n'' \<mapsto> 7]
      else UnmarshalError)\<close>

definition sample_Marshal :: "nat LogRecord list \<Rightarrow> string option" where
  "sample_Marshal rs = Some (''['' @ concat (map (\<lambda>r. ''{}'') rs) @ '']'')"

definition sample_container :: Container where
  "sample_container =
     \<lparr> ID = ''abc'', Name = ''/web'',
       Config = \<lparr> Image = ''nginx'', Hostname = ''web-1'',
                  Env = [''PATH=/bin'', ''LOGSTASH_FIELDS=env=prod''] \<rparr> \<rparr>"

definition sample_world :: "nat World" where
  "sample_world =
     \<lparr> getenv_LOGSTASH_FIELDS = '''', rancherList = api_abc, jsonUnmarshal = sample_Unmarshal,
       jsonMarshal = sample_Marshal, appendGrow = (\<lambda>c. 2 * c + 1) \<rparr>"

definition sample_message :: "string \<Rightarrow> Message" where
  "sample_message payload = \<lparr> msg_Container = sample_container, Data = payload \<rparr>"

definition sample_fields :: "string \<rightharpoonup> string" where
  "sample_fields = [''env'' \<mapsto> ''prod'']"

definition sample_docker :: DockerInfo where
  "sample_docker =
     \<lparr> di_Name = ''/web'', di_ID = ''abc'', di_Image = ''nginx'', di_Hostname = ''web-1'' \<rparr>"

definition sample_record :: "nat LogRecord \<Rightarrow> nat LogRecord" where
  "sample_record data0 =
     data0(''env'' \<mapsto> Str ''prod'', ''docker'' \<mapsto> Docker sample_docker,
           ''rancher'' \<mapsto> Rancher sample_info)"

definition sample_seen :: "nat HTTPAdapter \<Rightarrow> nat HTTPAdapter" where
  "sample_seen a = a\<lparr> logstashFields := (logstashFields a)(''abc'' \<mapsto> sample_fields) \<rparr>"

definition sample_messages :: "Message list" where
  \<open>sample_messages = [sample_message ''hello'', sample_message ''{"n":7}'', sample_message ''7'']\<close>

definition sample_records :: "nat LogRecord list" where
  "sample_records =
     [sample_record [''message'' \<mapsto> Str ''hello''], sample_record [''n'' \<mapsto> Decoded 7],
      sample_record [''message'' \<mapsto> Str ''7'']]"

definition unknown_world :: "nat World" where
  "unknown_world = sample_world\<lparr> rancherList := api_none \<rparr>"

definition marshal_fails :: "nat LogRecord list \<Rightarrow> string option" where
  "marshal_fails rs = None"

definition sample_Atoi :: "string \<Rightarrow> int option" where
  "sample_Atoi s =
     (if s = ''500'' then Some 500 else if s = ''50000'' then Some 50000 else None)"

definition sample_ParseDuration :: "string \<Rightarrow> int option" where
  "sample_ParseDuration s =
     (if s = ''250ms'' then Some 250000000 else if s = ''50ms'' then Some 50000000 else None)"

definition sample_route :: Route where
  "sample_route =
     \<lparr> Adapter = ''http'', Address = ''collector:8080'',
       Options = [''http.buffer.capacity'' \<mapsto> ''50000'', ''http.buffer.timeout'' \<mapsto> ''250ms''] \<rparr>"

section \<open>The resolver and its cache\<close>

lemma DeleteFromCache_False: "fst (DeleteFromCache cCache cId) = False"
  by (simp add: DeleteFromCache_def ExistsInCache_def Let_def)

lemma GetRancherInfo_cached:
  "cCache cID = Some info \<Longrightarrow> GetRancherInfo api cCache cID = (Some info, cCache, [])"
  by (simp add: GetRancherInfo_def ExistsInCache_def GetFromCache_def)

lemma GetRancherInfo_keeps:
  "cCache k = Some v \<Longrightarrow> fst (snd (GetRancherInfo api cCache cID)) k = Some v"
  by (auto simp: GetRancherInfo_def ExistsInCache_def GetFromCache_def DeleteFromCache_def
       Cache_def Let_def split: prod.splits option.splits)

lemma resolveAll_keeps:
  "cCache k = Some v \<Longrightarrow> resolveAll api cCache cIDs k = Some v"
  by (induction cIDs arbitrary: cCache) (simp_all add: GetRancherInfo_keeps)

lemma GetRancherInfo_Some_cached:
  "GetRancherInfo api cCache cID = (Some info, cCache1, eff) \<Longrightarrow> cCache1 cID = Some info"
  by (auto simp: GetRancherInfo_def ExistsInCache_def GetFromCache_def DeleteFromCache_def
       Cache_def Let_def split: prod.splits option.splits if_splits)








text \<open>
  C9. Once a resolution of a container ID has returned a record, a later resolution of
  that ID returns the same record, leaves the cache as it is and has no effect at all,
  so no call of the orchestrator API: whatever the orchestrator would answer then
  (\<open>api'\<close>), and whatever IDs were resolved in between (\<open>cIDs\<close>, against any \<open>api''\<close>).
\<close>

theorem resolve_twice_same_record:
  assumes "GetRancherInfo api cCache cID = (Some info, cCache1, eff)"
  shows "GetRancherInfo api' (resolveAll api'' cCache1 cIDs) cID
           = (Some info, resolveAll api'' cCache1 cIDs, [])"
  using assms by (intro GetRancherInfo_cached resolveAll_keeps GetRancherInfo_Some_cached)

theorem resolve_twice_same_record_witness:
  "GetRancherInfo api_abc Map.empty ''abc''
     = (Some sample_info, [''abc'' \<mapsto> sample_info], [ApiList ''abc''])
   \<and> GetRancherInfo api_none (resolveAll api_none [''abc'' \<mapsto> sample_info] [''xyz'']) ''abc''
     = (Some sample_info, resolveAll api_none [''abc'' \<mapsto> sample_info] [''xyz''], [])"
proof -
  have h: "GetRancherInfo api_abc Map.empty ''abc''
             = (Some sample_info, [''abc'' \<mapsto> sample_info], [ApiList ''abc''])"
    by (simp add: GetRancherInfo_def ExistsInCache_def GetRancherId_def api_abc_def
          sample_info_def Cache_def Let_def)
  show ?thesis
    using h resolve_twice_same_record [OF h, of api_none api_none "[''xyz'']"] by simp
qed

section \<open>The goroutine of a flush\<close>

lemma crash_on_do_error:
  "crash a \<Longrightarrow> createRequest tr (url a) (useGzip a) payload = Inr request \<Longrightarrow>
   clientDo tr request = (response, True) \<Longrightarrow>
   flushHttp_go tr a payload buffer0 = Inl (Die ''http - error on client.Do:'')"
  by (simp add: flushHttp_go_def onDoError_def)

lemma crash_on_status:
  "crash a \<Longrightarrow> createRequest tr (url a) (useGzip a) payload = Inr request \<Longrightarrow>
   clientDo tr request = (Some r, False) \<Longrightarrow> StatusCode r \<noteq> 200 \<Longrightarrow>
   flushHttp_go tr a payload buffer0 = Inl (Die ''http: response not 200 but'')"
  by (simp add: flushHttp_go_def onDoError_def onStatus_def)

lemma keep_going_with_response:
  "\<not> crash a \<Longrightarrow> createRequest tr (url a) (useGzip a) payload = Inr request \<Longrightarrow>
   clientDo tr request = (Some r, err) \<Longrightarrow>
   \<exists>eff. flushHttp_go tr a payload buffer0 = Inr (totalMessageCount a + length buffer0, eff)"
  by (simp add: flushHttp_go_def onDoError_def onStatus_def)

lemma keep_going_nil_response:
  "\<not> crash a \<Longrightarrow> createRequest tr (url a) (useGzip a) payload = Inr request \<Longrightarrow>
   clientDo tr request = (None, err) \<Longrightarrow>
   flushHttp_go tr a payload buffer0 = Inl NilPointerDereference"
  by (simp add: flushHttp_go_def onDoError_def onStatus_def)

text \<open>
  C1. The claim: with crash-on-error disabled, a dispatch that fails with a
  transport-level error is only logged and the process continues. The code: with
  \<^verbatim>\<open>http.crash=false\<close> and a \<^verbatim>\<open>client.Do\<close> that returns a nil response and an error, the
  goroutine logs the error and then reads \<^verbatim>\<open>response.StatusCode\<close>: a nil pointer
  dereference, which ends the process.
\<close>

theorem keep_going_faults_on_transport_error:
  "flushHttp_go transport_refused (sample_adapter\<lparr> crash := False \<rparr>) ''[{}]'' [Map.empty]
     = Inl NilPointerDereference"
  by (simp add: flushHttp_go_def createRequest_def transport_refused_def sample_adapter_def
        onDoError_def onStatus_def)

section \<open>The static tag fields\<close>

lemma Split_no_sep: "sep \<notin> set s \<Longrightarrow> Split s sep = [s]"
  by (induction s) auto

lemma Split_one_sep:
  "sep \<notin> set k \<Longrightarrow> sep \<notin> set v \<Longrightarrow> Split (k @ sep # v) sep = [k, v]"
  by (induction k) (auto simp: Split_no_sep)

lemma Split_not_Nil: "Split s sep \<noteq> []"
  by (induction s) (auto split: list.splits)

lemma parseFields_no_equals:
  "CHR ''='' \<notin> set f \<Longrightarrow> parseFields (f # fs) fields0 = Inl IndexOutOfRange"
  by (simp add: Split_no_sep)

lemma parseFields_well_formed:
  "CHR ''='' \<notin> set k \<Longrightarrow> CHR ''='' \<notin> set v \<Longrightarrow>
   parseFields ((k @ CHR ''='' # v) # fs) fields0 = parseFields fs (fields0(k \<mapsto> v))"
  by (simp add: Split_one_sep)

lemma parseFields_two_equals: "parseFields [''a=b=c''] Map.empty = Inr [''a'' \<mapsto> ''b'']"
  by simp

text \<open>
  C3. The claim: an entry of the static tag string that does not contain exactly one
  \<^verbatim>\<open>=\<close> is skipped with a diagnostic, without a fault. The code: for a container with
  \<^verbatim>\<open>LOGSTASH_FIELDS=a=1,foo\<close> the entry \<^verbatim>\<open>foo\<close> splits into one piece and \<^verbatim>\<open>sp[1]\<close> is an
  index out of range.
\<close>

theorem entry_without_equals_faults:
  "GetLogstashFields '''' malformed_container sample_adapter = Inl IndexOutOfRange"
  by (simp add: GetLogstashFields_def malformed_container_def sample_adapter_def HasPrefix_def
        TrimPrefix_def)

section \<open>What the enrichment of a message touches\<close>

lemma GetLogstashFields_frame:
  "GetLogstashFields getenv c a = Inr (fields0, a1) \<Longrightarrow>
   buffer a1 = buffer a \<and> buffer_cap a1 = buffer_cap a \<and> timer a1 = timer a
     \<and> capacity a1 = capacity a \<and> timeout a1 = timeout a"
  by (auto simp: GetLogstashFields_def Let_def split: option.splits sum.splits)

lemma GetLogstashFields_cong:
  assumes "logstashFields b = logstashFields a"
  shows "(case GetLogstashFields getenv c a of
            Inl f \<Rightarrow> GetLogstashFields getenv c b = Inl f
          | Inr (fields0, a1) \<Rightarrow>
              (\<exists>b1. GetLogstashFields getenv c b = Inr (fields0, b1)
                    \<and> logstashFields b1 = logstashFields a1))"
  using assms
  by (auto simp: GetLogstashFields_def Let_def split: option.splits sum.splits)

lemma GetRancherInfo_no_flush: "filter isFlush (snd (snd (GetRancherInfo api cCache cID))) = []"
  by (auto simp: GetRancherInfo_def GetRancherId_def DeleteFromCache_def ExistsInCache_def
        GetFromCache_def Let_def split: prod.splits option.splits)

lemma enrich_frame:
  assumes "enrich w a cCache m = Inr (ro, a1, cCache1, eff)"
  shows "buffer a1 = buffer a \<and> buffer_cap a1 = buffer_cap a \<and> timer a1 = timer a
     \<and> capacity a1 = capacity a \<and> timeout a1 = timeout a \<and> filter isFlush eff = []"
proof -
  from assms obtain fields0 where
    f: "GetLogstashFields (getenv_LOGSTASH_FIELDS w) (msg_Container m) a = Inr (fields0, a1)"
    by (auto simp: enrich_def Let_def split: sum.splits prod.splits option.splits)
  from assms f have "eff = snd (snd (GetRancherInfo (rancherList w) cCache (ID (msg_Container m))))"
    by (auto simp: enrich_def Let_def split: sum.splits prod.splits option.splits)
  then show ?thesis using GetLogstashFields_frame [OF f] GetRancherInfo_no_flush by simp
qed

lemma enrich_cong:
  assumes "logstashFields b = logstashFields a"
  shows "(case enrich w a cCache m of
            Inl f \<Rightarrow> enrich w b cCache m = Inl f
          | Inr (ro, a1, rest) \<Rightarrow>
              (\<exists>b1. enrich w b cCache m = Inr (ro, b1, rest)
                    \<and> logstashFields b1 = logstashFields a1))"
  using GetLogstashFields_cong [OF assms, of "getenv_LOGSTASH_FIELDS w" "msg_Container m"]
  by (auto simp: enrich_def Let_def split: sum.splits prod.splits option.splits)

lemma enrichAll_cong:
  "logstashFields b = logstashFields a \<Longrightarrow> enrichAll w b cCache ms = enrichAll w a cCache ms"
proof (induction ms arbitrary: a b cCache)
  case Nil
  then show ?case by simp
next
  case (Cons m ms)
  show ?case
  proof (cases "enrich w a cCache m")
    case (Inl f)
    with enrich_cong [OF Cons.prems, of w cCache m] show ?thesis by simp
  next
    case (Inr t)
    obtain ro a1 cCache1 eff where t: "t = (ro, a1, cCache1, eff)" by (cases t) auto
    with Inr enrich_cong [OF Cons.prems, of w cCache m]
    obtain b1 where b1: "enrich w b cCache m = Inr (ro, b1, cCache1, eff)"
      "logstashFields b1 = logstashFields a1" by auto
    show ?thesis
      using Inr t b1 Cons.IH [OF b1(2)] by (cases ro) simp_all
  qed
qed

lemma enrichAll_length: "enrichAll w a cCache ms = Some rs \<Longrightarrow> length rs = length ms"
  by (induction ms arbitrary: a cCache rs)
     (auto split: sum.splits prod.splits option.splits)

lemma enrichAll_take:
  "enrichAll w a cCache ms = Some rs \<Longrightarrow> enrichAll w a cCache (take k ms) = Some (take k rs)"
proof (induction ms arbitrary: a cCache rs k)
  case Nil
  then show ?case by simp
next
  case (Cons m ms)
  then show ?case
    by (cases k) (auto split: sum.splits prod.splits option.splits)
qed

section \<open>The buffer under Stream\<close>

lemma enqueue_under:
  assumes "buffer_cap a = capacity a" and "Suc (length (buffer a)) < capacity a"
  shows "\<exists>a2. enqueue w a r = (a2, []) \<and> buffer a2 = buffer a @ [r]
           \<and> buffer_cap a2 = buffer_cap a \<and> capacity a2 = capacity a
           \<and> timeout a2 = timeout a \<and> timer a2 = timer a
           \<and> logstashFields a2 = logstashFields a"
  using assms by (simp add: enqueue_def appendBuffer_def Let_def)

lemma enqueue_full:
  assumes "buffer_cap a = capacity a" and "Suc (length (buffer a)) = capacity a"
  shows "\<exists>a2. enqueue w a r = (a2, flushed w (buffer a @ [r]) ''full'') \<and> buffer a2 = []
           \<and> buffer_cap a2 = capacity a \<and> capacity a2 = capacity a
           \<and> timeout a2 = timeout a \<and> timer a2 = Armed (timeout a)
           \<and> logstashFields a2 = logstashFields a"
  using assms
  by (auto simp: enqueue_def appendBuffer_def flushed_def flushHttp_def Let_def
        split: option.splits)

lemma flushed_isFlush: "filter isFlush (flushed w batch reason) = flushed w batch reason"
  by (simp add: flushed_def split: option.splits)

lemma Stream_message_enriched:
  assumes "enrich w a cCache m = Inr (Some r, a1, cCache1, eff)"
    and "enqueue w a1 r = (a2, eff2)"
  shows "Stream_message w a cCache m = Inr (a2, cCache1, eff @ eff2)"
  using assms by (simp add: Stream_message_def)

lemma Stream_under_capacity:
  assumes "buffer_cap a = capacity a"
    and "enrichAll w a cCache ms = Some rs"
    and "length (buffer a) + length rs < capacity a"
  shows "\<exists>a' cCache' eff. Stream w a cCache (map Logstream ms) = Inr (a', cCache', eff)
           \<and> buffer a' = buffer a @ rs \<and> buffer_cap a' = capacity a
           \<and> capacity a' = capacity a \<and> timeout a' = timeout a \<and> timer a' = timer a
           \<and> filter isFlush eff = []"
  using assms
proof (induction ms arbitrary: a cCache rs)
  case Nil
  then show ?case by simp
next
  case (Cons m ms)
  from Cons.prems(2) obtain r a1 cCache1 eff1 rs' where
    e: "enrich w a cCache m = Inr (Some r, a1, cCache1, eff1)"
    and rs: "rs = r # rs'" and all: "enrichAll w a1 cCache1 ms = Some rs'"
    by (auto split: sum.splits prod.splits option.splits)
  note fr = enrich_frame [OF e]
  from fr Cons.prems rs have c1: "buffer_cap a1 = capacity a1"
    and l1: "Suc (length (buffer a1)) < capacity a1" by simp_all
  from enqueue_under [OF c1 l1, of w r] obtain a2 where
    q: "enqueue w a1 r = (a2, [])" and a2: "buffer a2 = buffer a1 @ [r]"
      "buffer_cap a2 = buffer_cap a1" "capacity a2 = capacity a1" "timeout a2 = timeout a1"
      "timer a2 = timer a1" "logstashFields a2 = logstashFields a1"
    by blast
  have step: "Stream_message w a cCache m = Inr (a2, cCache1, eff1)"
    using Stream_message_enriched [OF e q] by simp
  have all2: "enrichAll w a2 cCache1 ms = Some rs'"
    using enrichAll_cong [OF a2(6)] all by simp
  have "\<exists>a' cCache' eff. Stream w a2 cCache1 (map Logstream ms) = Inr (a', cCache', eff)
           \<and> buffer a' = buffer a2 @ rs' \<and> buffer_cap a' = capacity a2
           \<and> capacity a' = capacity a2 \<and> timeout a' = timeout a2 \<and> timer a' = timer a2
           \<and> filter isFlush eff = []"
    using Cons.IH [OF _ all2] a2 c1 l1 fr Cons.prems(3) rs by simp
  then obtain a' cCache' eff where
    run: "Stream w a2 cCache1 (map Logstream ms) = Inr (a', cCache', eff)"
    and props: "buffer a' = buffer a2 @ rs'" "buffer_cap a' = capacity a2"
      "capacity a' = capacity a2" "timeout a' = timeout a2" "timer a' = timer a2"
      "filter isFlush eff = []"
    by blast
  have "Stream w a cCache (map Logstream (m # ms)) = Inr (a', cCache', eff1 @ eff)"
    using step run by (simp add: Stream_select_def)
  then show ?case using props a2 fr rs by simp
qed

lemma Stream_reaches_capacity:
  assumes "buffer_cap a = capacity a"
    and "enrichAll w a cCache ms = Some rs"
    and "length (buffer a) + length rs = capacity a"
    and "rs \<noteq> []"
  shows "\<exists>a' cCache' eff. Stream w a cCache (map Logstream ms) = Inr (a', cCache', eff)
           \<and> buffer a' = [] \<and> buffer_cap a' = capacity a
           \<and> capacity a' = capacity a \<and> timeout a' = timeout a
           \<and> timer a' = Armed (timeout a)
           \<and> filter isFlush eff = flushed w (buffer a @ rs) ''full''"
  using assms
proof (induction ms arbitrary: a cCache rs)
  case Nil
  then show ?case by simp
next
  case (Cons m ms)
  from Cons.prems(2) obtain r a1 cCache1 eff1 rs' where
    e: "enrich w a cCache m = Inr (Some r, a1, cCache1, eff1)"
    and rs: "rs = r # rs'" and all: "enrichAll w a1 cCache1 ms = Some rs'"
    by (auto split: sum.splits prod.splits option.splits)
  note fr = enrich_frame [OF e]
  from fr Cons.prems have c1: "buffer_cap a1 = capacity a1" by simp
  show ?case
  proof (cases "rs' = []")
    case True
    with all enrichAll_length [OF all] have ms: "ms = []" by simp
    from True rs Cons.prems(3) fr have l1: "Suc (length (buffer a1)) = capacity a1" by simp
    from enqueue_full [OF c1 l1, of w r] obtain a2 where
      q: "enqueue w a1 r = (a2, flushed w (buffer a1 @ [r]) ''full'')"
      and a2: "buffer a2 = []" "buffer_cap a2 = capacity a1" "capacity a2 = capacity a1"
        "timeout a2 = timeout a1" "timer a2 = Armed (timeout a1)"
      by blast
    have "Stream w a cCache (map Logstream (m # ms))
            = Inr (a2, cCache1, (eff1 @ flushed w (buffer a1 @ [r]) ''full'') @ [])"
      using Stream_message_enriched [OF e q] ms by (simp add: Stream_select_def)
    then show ?thesis using a2 fr rs True by (simp add: flushed_isFlush)
  next
    case False
    with rs Cons.prems(3) fr have l1: "Suc (length (buffer a1)) < capacity a1"
      by (cases rs') simp_all
    from enqueue_under [OF c1 l1, of w r] obtain a2 where
      q: "enqueue w a1 r = (a2, [])" and a2: "buffer a2 = buffer a1 @ [r]"
        "buffer_cap a2 = buffer_cap a1" "capacity a2 = capacity a1" "timeout a2 = timeout a1"
        "timer a2 = timer a1" "logstashFields a2 = logstashFields a1"
      by blast
    have step: "Stream_message w a cCache m = Inr (a2, cCache1, eff1)"
      using Stream_message_enriched [OF e q] by simp
    have all2: "enrichAll w a2 cCache1 ms = Some rs'"
      using enrichAll_cong [OF a2(6)] all by simp
    have "\<exists>a' cCache' eff. Stream w a2 cCache1 (map Logstream ms) = Inr (a', cCache', eff)
           \<and> buffer a' = [] \<and> buffer_cap a' = capacity a2
           \<and> capacity a' = capacity a2 \<and> timeout a' = timeout a2
           \<and> timer a' = Armed (timeout a2)
           \<and> filter isFlush eff = flushed w (buffer a2 @ rs') ''full''"
      using Cons.IH [OF _ all2 _ False] a2 c1 fr Cons.prems(3) rs by simp
    then obtain a' cCache' eff where
      run: "Stream w a2 cCache1 (map Logstream ms) = Inr (a', cCache', eff)"
      and props: "buffer a' = []" "buffer_cap a' = capacity a2"
        "capacity a' = capacity a2" "timeout a' = timeout a2" "timer a' = Armed (timeout a2)"
        "filter isFlush eff = flushed w (buffer a2 @ rs') ''full''"
      by blast
    have "Stream w a cCache (map Logstream (m # ms)) = Inr (a', cCache', eff1 @ eff)"
      using step run by (simp add: Stream_select_def)
    then show ?thesis using props a2 fr rs by simp
  qed
qed

section \<open>The concrete inputs, evaluated\<close>

lemma sample_GetLogstashFields:
  "logstashFields a ''abc'' = None \<Longrightarrow>
   GetLogstashFields '''' sample_container a = Inr (sample_fields, sample_seen a)"
  by (simp add: GetLogstashFields_def sample_container_def HasPrefix_def TrimPrefix_def
        sample_fields_def sample_seen_def)

lemma sample_GetLogstashFields_seen:
  "logstashFields a ''abc'' = Some sample_fields \<Longrightarrow>
   GetLogstashFields '''' sample_container a = Inr (sample_fields, a)"
  by (simp add: GetLogstashFields_def sample_container_def)

lemma sample_GetRancherInfo:
  "GetRancherInfo api_abc Map.empty ''abc''
     = (Some sample_info, [''abc'' \<mapsto> sample_info], [ApiList ''abc''])"
  by (simp add: GetRancherInfo_def ExistsInCache_def GetRancherId_def api_abc_def
        sample_info_def Cache_def Let_def)

lemma sample_logRecord:
  "r \<noteq> UnmarshalNil \<Longrightarrow>
   logRecord r payload sample_fields dockerInfo rancherInfo
     = Inr ((the (decodeData r payload))
              (''env'' \<mapsto> Str ''prod'', ''docker'' \<mapsto> Docker dockerInfo,
               ''rancher'' \<mapsto> Rancher rancherInfo))"
  by (auto simp: logRecord_def decodeData_def sample_fields_def Let_def
        split: Unmarshal.splits)

lemma sample_container_sel:
  "ID sample_container = ''abc''" "Name sample_container = ''/web''"
  "Image (Config sample_container) = ''nginx''" "Hostname (Config sample_container) = ''web-1''"
  by (simp_all add: sample_container_def)

lemma sample_enrich_first:
  "logstashFields a ''abc'' = None \<Longrightarrow> sample_Unmarshal payload \<noteq> UnmarshalNil \<Longrightarrow>
   enrich sample_world a Map.empty (sample_message payload)
     = Inr (Some (sample_record (the (decodeData (sample_Unmarshal payload) payload))),
            sample_seen a, [''abc'' \<mapsto> sample_info], [ApiList ''abc''])"
  by (simp add: enrich_def sample_world_def sample_message_def Let_def sample_container_sel
        sample_GetLogstashFields sample_GetRancherInfo sample_logRecord sample_record_def
        sample_docker_def)

lemma sample_enrich_seen:
  "logstashFields a ''abc'' = Some sample_fields \<Longrightarrow> sample_Unmarshal payload \<noteq> UnmarshalNil \<Longrightarrow>
   enrich sample_world a [''abc'' \<mapsto> sample_info] (sample_message payload)
     = Inr (Some (sample_record (the (decodeData (sample_Unmarshal payload) payload))),
            a, [''abc'' \<mapsto> sample_info], [])"
  by (simp add: enrich_def sample_world_def sample_message_def Let_def sample_container_sel
        sample_GetLogstashFields_seen GetRancherInfo_cached sample_logRecord sample_record_def
        sample_docker_def)

lemma sample_enrichAll:
  "enrichAll sample_world sample_adapter Map.empty sample_messages = Some sample_records"
proof -
  have 0: "logstashFields sample_adapter ''abc'' = None" by (simp add: sample_adapter_def)
  have 1: "logstashFields (sample_seen sample_adapter) ''abc'' = Some sample_fields"
    by (simp add: sample_seen_def)
  have u: "sample_Unmarshal ''hello'' = UnmarshalError"
    \<open>sample_Unmarshal ''{"n":7}'' = UnmarshalObject [''n'' \<mapsto> 7]\<close>
    "sample_Unmarshal ''7'' = UnmarshalError"
    by (simp_all add: sample_Unmarshal_def)
  show ?thesis
    by (simp add: sample_messages_def sample_records_def sample_enrich_first [OF 0]
          sample_enrich_seen [OF 1] u decodeData_def)
qed

section \<open>The flush at capacity\<close>

text \<open>
  C4. Let the slice have the configured capacity (as the constructor and every flush
  leave it), and let messages arrive, with no timer event between them, that are all
  enriched (\<open>enrichAll\<close> gives their records \<open>rs\<close>) and that fill the buffer exactly.
  Then Stream flushes once, with the reason \<^verbatim>\<open>full\<close>: the detached batch is the buffer
  followed by \<open>rs\<close>, in this order, and has \<open>capacity\<close> records; its goroutine is started
  if the serialization succeeds; the buffer is empty afterwards, with the configured
  capacity, and the timer is armed with the configured timeout. There is no flush
  earlier: after any shorter prefix of the messages the buffer holds the records so
  far, nothing is flushed and the timer is untouched.
\<close>

theorem flush_at_capacity:
  assumes "buffer_cap a = capacity a"
    and "enrichAll w a cCache ms = Some rs"
    and "length (buffer a) + length ms = capacity a"
    and "ms \<noteq> []"
  shows "(\<exists>a' cCache' eff. Stream w a cCache (map Logstream ms) = Inr (a', cCache', eff)
            \<and> buffer a' = [] \<and> buffer_cap a' = capacity a \<and> capacity a' = capacity a
            \<and> timer a' = Armed (timeout a)
            \<and> length (buffer a @ rs) = capacity a
            \<and> filter isFlush eff =
                (case jsonMarshal w (buffer a @ rs) of
                   None \<Rightarrow> [Debug ''flushHttp - Error encoding JSON: '']
                 | Some payload \<Rightarrow> [Go payload (buffer a @ rs) ''full'']))
       \<and> (\<forall>k < length ms.
             \<exists>a' cCache' eff. Stream w a cCache (map Logstream (take k ms)) = Inr (a', cCache', eff)
               \<and> buffer a' = buffer a @ take k rs \<and> timer a' = timer a
               \<and> filter isFlush eff = [])"
proof (intro conjI allI impI)
  have len: "length rs = length ms" using enrichAll_length [OF assms(2)] .
  then have "rs \<noteq> []" using assms(4) by auto
  from Stream_reaches_capacity [OF assms(1,2) _ this] assms(3) len
  show "\<exists>a' cCache' eff. Stream w a cCache (map Logstream ms) = Inr (a', cCache', eff)
            \<and> buffer a' = [] \<and> buffer_cap a' = capacity a \<and> capacity a' = capacity a
            \<and> timer a' = Armed (timeout a)
            \<and> length (buffer a @ rs) = capacity a
            \<and> filter isFlush eff =
                (case jsonMarshal w (buffer a @ rs) of
                   None \<Rightarrow> [Debug ''flushHttp - Error encoding JSON: '']
                 | Some payload \<Rightarrow> [Go payload (buffer a @ rs) ''full''])"
    by (auto simp: flushed_def)
next
  fix k assume k: "k < length ms"
  have len: "length rs = length ms" using enrichAll_length [OF assms(2)] .
  have "length (buffer a) + length (take k rs) < capacity a"
    using k len assms(3) by simp
  from Stream_under_capacity [OF assms(1) enrichAll_take [OF assms(2)] this]
  show "\<exists>a' cCache' eff. Stream w a cCache (map Logstream (take k ms)) = Inr (a', cCache', eff)
               \<and> buffer a' = buffer a @ take k rs \<and> timer a' = timer a
               \<and> filter isFlush eff = []"
    by blast
qed

theorem flush_at_capacity_witness:
  "enrichAll sample_world sample_adapter Map.empty sample_messages = Some sample_records
   \<and> (\<exists>a' cCache' eff.
         Stream sample_world sample_adapter Map.empty (map Logstream sample_messages)
           = Inr (a', cCache', eff)
         \<and> buffer a' = [] \<and> buffer_cap a' = 3 \<and> timer a' = Armed 1000000000
         \<and> filter isFlush eff = [Go ''[{}{}{}]'' sample_records ''full''])"
proof -
  have a: "buffer_cap sample_adapter = capacity sample_adapter"
    "length (buffer sample_adapter) + length sample_messages = capacity sample_adapter"
    "sample_messages \<noteq> []" "buffer sample_adapter = []" "capacity sample_adapter = 3"
    "timeout sample_adapter = 1000000000"
    by (simp_all add: sample_adapter_def sample_messages_def)
  have m: "jsonMarshal sample_world sample_records = Some ''[{}{}{}]''"
    by (simp add: sample_world_def sample_Marshal_def sample_records_def)
  from flush_at_capacity [OF a(1) sample_enrichAll a(2,3), THEN conjunct1]
  show ?thesis using sample_enrichAll by (auto simp: a m)
qed

section \<open>A flush that sends nothing\<close>

text \<open>
  C5. A flush of an empty buffer, or one whose serialization fails, starts no
  goroutine (so no request is sent), returns (flushHttp has no panic), and leaves the
  timer armed with the configured timeout; the buffer is empty afterwards.
\<close>

theorem flush_without_request:
  assumes "buffer a = [] \<or> marshal (buffer a) = None"
  shows "\<exists>a' eff. flushHttp marshal a reason = (a', eff)
           \<and> (\<forall>payload buffer0 reason0. Go payload buffer0 reason0 \<notin> set eff)
           \<and> timer a' = Armed (timeout a) \<and> timeout a' = timeout a \<and> buffer a' = []"
  using assms by (auto simp: flushHttp_def Let_def)

theorem flush_without_request_witness:
  "marshal_fails (buffer (sample_adapter\<lparr> buffer := [Map.empty] \<rparr>)) = None
   \<and> (\<exists>a' eff. flushHttp marshal_fails (sample_adapter\<lparr> buffer := [Map.empty] \<rparr>) ''timeout''
                  = (a', eff)
           \<and> (\<forall>payload buffer0 reason0. Go payload buffer0 reason0 \<notin> set eff)
           \<and> timer a' = Armed 1000000000 \<and> buffer a' = [])"
proof -
  have h: "marshal_fails (buffer (sample_adapter\<lparr> buffer := [Map.empty] \<rparr>)) = None"
    by (simp add: marshal_fails_def)
  have "buffer (sample_adapter\<lparr> buffer := [Map.empty] \<rparr>) = []
        \<or> marshal_fails (buffer (sample_adapter\<lparr> buffer := [Map.empty] \<rparr>)) = None"
    using h by simp
  from flush_without_request
         [of "sample_adapter\<lparr> buffer := [Map.empty] \<rparr>" marshal_fails "''timeout''", OF this] h
  show ?thesis by (auto simp: sample_adapter_def)
qed

section \<open>The payload in the record\<close>

text \<open>
  C6, as amended. For a message that is turned into a record: if \<^verbatim>\<open>json.Unmarshal\<close>
  decodes the payload to an object, each decoded field is a field of the record itself,
  unless a static tag field, \<^verbatim>\<open>docker\<close> or \<^verbatim>\<open>rancher\<close> has its key; if \<^verbatim>\<open>json.Unmarshal\<close>
  returns an error (the payload is not JSON, or is JSON but not an object), the record
  has the raw payload under \<^verbatim>\<open>message\<close>, unless a static tag field is named \<^verbatim>\<open>message\<close>, and
  nothing else from the payload. The static tag fields, \<^verbatim>\<open>docker\<close> and \<^verbatim>\<open>rancher\<close> are
  always there.
\<close>

theorem payload_merged_or_wrapped:
  assumes "enrich w a cCache message = Inr (Some data, a1, cCache1, eff)"
  shows "\<exists>fields0.
           GetLogstashFields (getenv_LOGSTASH_FIELDS w) (msg_Container message) a
             = Inr (fields0, a1)
         \<and> (case jsonUnmarshal w (Data message) of
               UnmarshalObject m \<Rightarrow>
                 (\<forall>k. k \<noteq> ''docker'' \<and> k \<noteq> ''rancher'' \<and> fields0 k = None
                        \<longrightarrow> data k = map_option Decoded (m k))
             | UnmarshalError \<Rightarrow>
                 (fields0 ''message'' = None \<longrightarrow> data ''message'' = Some (Str (Data message)))
                 \<and> (\<forall>k. k \<noteq> ''message'' \<and> k \<noteq> ''docker'' \<and> k \<noteq> ''rancher''
                          \<and> fields0 k = None \<longrightarrow> data k = None)
             | UnmarshalNil \<Rightarrow> True)
         \<and> (\<forall>k v. fields0 k = Some v \<and> k \<noteq> ''docker'' \<and> k \<noteq> ''rancher''
                    \<longrightarrow> data k = Some (Str v))
         \<and> (\<exists>dockerInfo rancherInfo. data ''docker'' = Some (Docker dockerInfo)
                \<and> data ''rancher'' = Some (Rancher rancherInfo))"
proof -
  from assms obtain fields0 where
    f: "GetLogstashFields (getenv_LOGSTASH_FIELDS w) (msg_Container message) a = Inr (fields0, a1)"
    by (auto simp: enrich_def Let_def split: sum.splits prod.splits option.splits)
  from assms f obtain dockerInfo rancherInfo where
    l: "logRecord (jsonUnmarshal w (Data message)) (Data message) fields0 dockerInfo rancherInfo
          = Inr data"
    by (auto simp: enrich_def Let_def split: sum.splits prod.splits option.splits)
  from l obtain data0 where
    d0: "decodeData (jsonUnmarshal w (Data message)) (Data message) = Some data0"
    and d: "data = (data0 ++ (map_option Str \<circ> fields0))
                     (''docker'' \<mapsto> Docker dockerInfo, ''rancher'' \<mapsto> Rancher rancherInfo)"
    by (auto simp: logRecord_def Let_def split: option.splits)
  have "case jsonUnmarshal w (Data message) of
          UnmarshalObject m \<Rightarrow>
            (\<forall>k. k \<noteq> ''docker'' \<and> k \<noteq> ''rancher'' \<and> fields0 k = None
                   \<longrightarrow> data k = map_option Decoded (m k))
        | UnmarshalError \<Rightarrow>
            (fields0 ''message'' = None \<longrightarrow> data ''message'' = Some (Str (Data message)))
            \<and> (\<forall>k. k \<noteq> ''message'' \<and> k \<noteq> ''docker'' \<and> k \<noteq> ''rancher''
                     \<and> fields0 k = None \<longrightarrow> data k = None)
        | UnmarshalNil \<Rightarrow> True"
    using d0 d
    by (auto simp: decodeData_def map_add_def split: Unmarshal.splits)
  moreover have "\<forall>k v. fields0 k = Some v \<and> k \<noteq> ''docker'' \<and> k \<noteq> ''rancher''
                    \<longrightarrow> data k = Some (Str v)"
    using d by (auto simp: map_add_def)
  moreover have "\<exists>dockerInfo rancherInfo. data ''docker'' = Some (Docker dockerInfo)
                \<and> data ''rancher'' = Some (Rancher rancherInfo)"
    using d by simp
  ultimately show ?thesis using f by blast
qed

theorem payload_merged_or_wrapped_witness:
  \<open>enrich sample_world sample_adapter Map.empty (sample_message ''{"n":7}'')
     = Inr (Some (sample_record [''n'' \<mapsto> Decoded 7]), sample_seen sample_adapter,
            [''abc'' \<mapsto> sample_info], [ApiList ''abc''])
   \<and> sample_record [''n'' \<mapsto> Decoded 7] ''n'' = Some (Decoded 7)
   \<and> sample_record [''n'' \<mapsto> Decoded 7] ''env'' = Some (Str ''prod'')
   \<and> sample_record [''n'' \<mapsto> Decoded 7] ''message'' = None\<close>
proof -
  have 0: "logstashFields sample_adapter ''abc'' = None" by (simp add: sample_adapter_def)
  have u: \<open>sample_Unmarshal ''{"n":7}'' = UnmarshalObject [''n'' \<mapsto> 7]\<close>
    by (simp add: sample_Unmarshal_def)
  have h: \<open>enrich sample_world sample_adapter Map.empty (sample_message ''{"n":7}'')
     = Inr (Some (sample_record [''n'' \<mapsto> Decoded 7]), sample_seen sample_adapter,
            [''abc'' \<mapsto> sample_info], [ApiList ''abc''])\<close>
    using sample_enrich_first [OF 0, of \<open>''{"n":7}''\<close>] u by (simp add: decodeData_def)
  show ?thesis
    using h payload_merged_or_wrapped [OF h]
    by (simp add: sample_record_def)
qed

text \<open>
  C6 as stated fails: the payload \<^verbatim>\<open>7\<close> is valid JSON, \<^verbatim>\<open>json.Unmarshal\<close> into a map
  returns an error for it, and the record holds it wrapped under \<^verbatim>\<open>message\<close>.
\<close>

theorem valid_json_number_is_wrapped:
  "enrich sample_world sample_adapter Map.empty (sample_message ''7'')
     = Inr (Some (sample_record [''message'' \<mapsto> Str ''7'']), sample_seen sample_adapter,
            [''abc'' \<mapsto> sample_info], [ApiList ''abc''])"
proof -
  have "logstashFields sample_adapter ''abc'' = None" by (simp add: sample_adapter_def)
  moreover have "sample_Unmarshal ''7'' = UnmarshalError" by (simp add: sample_Unmarshal_def)
  ultimately show ?thesis
    using sample_enrich_first [of sample_adapter "''7''"] by (simp add: decodeData_def)
qed

section \<open>No record without orchestrator metadata\<close>

text \<open>
  C7. When Stream has handled a message without a panic, either the resolution of the
  message's container returned a metadata record, or the buffer, its capacity and the
  timer are as before and nothing was flushed: a message whose resolution fails is
  dropped before buffering.
\<close>

theorem buffered_only_with_metadata:
  assumes "Stream_message w a cCache message = Inr (a', cCache', eff')"
  shows "(\<exists>rancherInfo. fst (GetRancherInfo (rancherList w) cCache (ID (msg_Container message)))
             = Some rancherInfo)
         \<or> (buffer a' = buffer a \<and> buffer_cap a' = buffer_cap a \<and> timer a' = timer a
              \<and> (\<forall>payload buffer0 reason0. Go payload buffer0 reason0 \<notin> set eff'))"
proof (cases "fst (GetRancherInfo (rancherList w) cCache (ID (msg_Container message)))")
  case (Some ri)
  then show ?thesis by simp
next
  case None
  then obtain cCache1 eff where g:
    "GetRancherInfo (rancherList w) cCache (ID (msg_Container message)) = (None, cCache1, eff)"
    by (metis prod.collapse)
  from assms obtain fields0 a1 where
    f: "GetLogstashFields (getenv_LOGSTASH_FIELDS w) (msg_Container message) a = Inr (fields0, a1)"
    by (auto simp: Stream_message_def enrich_def Let_def split: sum.splits)
  from assms f g have "a' = a1" "eff' = eff"
    by (simp_all add: Stream_message_def enrich_def Let_def)
  moreover have "filter isFlush eff = []"
    using GetRancherInfo_no_flush [of "rancherList w" cCache "ID (msg_Container message)"] g
    by simp
  then have "\<forall>payload buffer0 reason0. Go payload buffer0 reason0 \<notin> set eff"
    by (auto simp: filter_empty_conv)
  ultimately show ?thesis using GetLogstashFields_frame [OF f] by simp
qed

theorem buffered_only_with_metadata_witness:
  "Stream_message unknown_world sample_adapter Map.empty (sample_message ''hello'')
     = Inr (sample_seen sample_adapter, Map.empty, [ApiList ''abc''])
   \<and> fst (GetRancherInfo (rancherList unknown_world) Map.empty
            (ID (msg_Container (sample_message ''hello'')))) = None
   \<and> buffer (sample_seen sample_adapter) = buffer sample_adapter"
proof -
  have 0: "logstashFields sample_adapter ''abc'' = None" by (simp add: sample_adapter_def)
  have g: "GetRancherInfo api_none Map.empty ''abc'' = (None, Map.empty, [ApiList ''abc''])"
    by (simp add: GetRancherInfo_def ExistsInCache_def GetRancherId_def api_none_def
          DeleteFromCache_def Let_def)
  have h: "Stream_message unknown_world sample_adapter Map.empty (sample_message ''hello'')
             = Inr (sample_seen sample_adapter, Map.empty, [ApiList ''abc''])"
    by (simp add: Stream_message_def enrich_def unknown_world_def sample_world_def
          sample_message_def Let_def sample_container_sel sample_GetLogstashFields [OF 0] g)
  have n: "fst (GetRancherInfo (rancherList unknown_world) Map.empty
            (ID (msg_Container (sample_message ''hello'')))) = None"
    by (simp add: unknown_world_def sample_world_def sample_message_def sample_container_sel g)
  show ?thesis using h n buffered_only_with_metadata [OF h] by simp
qed

section \<open>The options of the buffer\<close>

text \<open>
  C8. Whatever the options \<^verbatim>\<open>http.buffer.capacity\<close> and \<^verbatim>\<open>http.buffer.timeout\<close> hold, the
  constructor returns an adapter (it panics on an unparsable proxy URL only). A
  capacity that parses to a number from 1 to 10000 is used as given; one out of this
  range, unparsable or absent gives 100. A timeout that parses to a duration from
  100 ms to 600 s is used as given; one out of this range, unparsable or absent gives
  1000 ms. The slice gets the capacity and the timer the timeout.
\<close>

theorem options_fall_back_to_defaults:
  assumes "getStringParameter (Options route) ''http.proxy'' '''' = ''''
           \<or> \<not> urlParseFails (getStringParameter (Options route) ''http.proxy'' '''')"
  shows "\<exists>a. NewHTTPAdapter atoi parseDuration urlParseFails route = Inr a
           \<and> (\<forall>n. Option.bind (Options route ''http.buffer.capacity'') atoi = Some n
                    \<and> 1 \<le> n \<and> n \<le> 10000 \<longrightarrow> int (capacity a) = n)
           \<and> (\<forall>n. Option.bind (Options route ''http.buffer.capacity'') atoi = Some n
                    \<and> (n < 1 \<or> 10000 < n) \<longrightarrow> capacity a = 100)
           \<and> (Option.bind (Options route ''http.buffer.capacity'') atoi = None
                \<longrightarrow> capacity a = 100)
           \<and> (\<forall>d. Option.bind (Options route ''http.buffer.timeout'') parseDuration = Some d
                    \<and> 100 * millisecond \<le> d \<and> d \<le> 600 * second \<longrightarrow> timeout a = d)
           \<and> (\<forall>d. Option.bind (Options route ''http.buffer.timeout'') parseDuration = Some d
                    \<and> (d < 100 * millisecond \<or> 600 * second < d)
                    \<longrightarrow> timeout a = 1000 * millisecond)
           \<and> (Option.bind (Options route ''http.buffer.timeout'') parseDuration = None
                \<longrightarrow> timeout a = 1000 * millisecond)
           \<and> buffer a = [] \<and> buffer_cap a = capacity a \<and> timer a = Armed (timeout a)"
  using assms
  by (auto simp: NewHTTPAdapter_def Let_def getIntParameter_def getDurationParameter_def
        split: option.splits bind_splits)

theorem options_fall_back_to_defaults_witness:
  "getStringParameter (Options sample_route) ''http.proxy'' '''' = ''''
   \<and> Option.bind (Options sample_route ''http.buffer.capacity'') sample_Atoi = Some 50000
   \<and> Option.bind (Options sample_route ''http.buffer.timeout'') sample_ParseDuration
       = Some (250 * millisecond)
   \<and> (\<exists>a :: nat HTTPAdapter.
         NewHTTPAdapter sample_Atoi sample_ParseDuration (\<lambda>u. True) sample_route = Inr a
         \<and> capacity a = 100 \<and> timeout a = 250 * millisecond
         \<and> buffer_cap a = 100 \<and> timer a = Armed (250 * millisecond))"
proof -
  have p: "getStringParameter (Options sample_route) ''http.proxy'' '''' = ''''"
    by (simp add: getStringParameter_def sample_route_def)
  have c: "Option.bind (Options sample_route ''http.buffer.capacity'') sample_Atoi = Some 50000"
    by (simp add: sample_route_def sample_Atoi_def)
  have t: "Option.bind (Options sample_route ''http.buffer.timeout'') sample_ParseDuration
             = Some (250 * millisecond)"
    by (simp add: sample_route_def sample_ParseDuration_def millisecond_def)
  have "getStringParameter (Options sample_route) ''http.proxy'' '''' = ''''
        \<or> \<not> (\<lambda>u. True) (getStringParameter (Options sample_route) ''http.proxy'' '''')"
    using p by simp
  from options_fall_back_to_defaults
         [of sample_route "\<lambda>u. True" sample_Atoi sample_ParseDuration, OF this]
  obtain a :: "nat HTTPAdapter" where
    a: "NewHTTPAdapter sample_Atoi sample_ParseDuration (\<lambda>u. True) sample_route = Inr a"
    and cap: "\<forall>n. Option.bind (Options sample_route ''http.buffer.capacity'') sample_Atoi = Some n
                    \<and> (n < 1 \<or> 10000 < n) \<longrightarrow> capacity a = 100"
    and tmo: "\<forall>d. Option.bind (Options sample_route ''http.buffer.timeout'') sample_ParseDuration
                      = Some d
                    \<and> 100 * millisecond \<le> d \<and> d \<le> 600 * second \<longrightarrow> timeout a = d"
    and rest: "buffer_cap a = capacity a" "timer a = Armed (timeout a)"
    by blast
  from cap c have "capacity a = 100" by simp
  moreover from tmo t have "timeout a = 250 * millisecond"
    by (simp add: millisecond_def second_def)
  ultimately show ?thesis using p c t a rest by simp
qed

section \<open>The payload null\<close>

text \<open>
  C10. For a message with the payload \<^verbatim>\<open>null\<close>, which \<^verbatim>\<open>json.Unmarshal\<close> accepts leaving
  the map nil, whose static tag fields were extracted and whose container was resolved
  (so that Stream reaches the decoding), Stream panics on the assignment to the nil
  map: the message is neither skipped nor appended.
\<close>

theorem null_payload_faults:
  assumes "Data message = ''null''"
    and "jsonUnmarshal w ''null'' = UnmarshalNil"
    and "GetLogstashFields (getenv_LOGSTASH_FIELDS w) (msg_Container message) a = Inr (fields0, a1)"
    and "GetRancherInfo (rancherList w) cCache (ID (msg_Container message))
           = (Some rancherInfo, cCache1, eff)"
  shows "Stream_message w a cCache message = Inl NilMapAssignment"
  using assms
  by (simp add: Stream_message_def enrich_def logRecord_def decodeData_def Let_def)

theorem null_payload_faults_witness:
  "Stream_message sample_world sample_adapter Map.empty (sample_message ''null'')
     = Inl NilMapAssignment"
proof -
  have 0: "logstashFields sample_adapter ''abc'' = None" by (simp add: sample_adapter_def)
  have "Data (sample_message ''null'') = ''null''" by (simp add: sample_message_def)
  moreover have "jsonUnmarshal sample_world ''null'' = UnmarshalNil"
    by (simp add: sample_world_def sample_Unmarshal_def)
  moreover have "GetLogstashFields (getenv_LOGSTASH_FIELDS sample_world)
                   (msg_Container (sample_message ''null'')) sample_adapter
                   = Inr (sample_fields, sample_seen sample_adapter)"
    using sample_GetLogstashFields [OF 0] by (simp add: sample_world_def sample_message_def)
  moreover have "GetRancherInfo (rancherList sample_world) Map.empty
                   (ID (msg_Container (sample_message ''null'')))
                   = (Some sample_info, [''abc'' \<mapsto> sample_info], [ApiList ''abc''])"
    using sample_GetRancherInfo
    by (simp add: sample_world_def sample_message_def sample_container_sel)
  ultimately show ?thesis by (rule null_payload_faults)
qed

end
